theory Spec2Isabelle
  imports Main "HOL-Library.Multiset" "HOL-Library.Sublist" "HOL-Library.AList"
begin

section \<open>JSON values and the Python operations applied to them\<close>

text \<open>
  What \<open>json.load\<close> delivers: \<open>None\<close>, booleans, integers, floats, strings, lists and
  dictionaries. A float is kept as its \<open>repr\<close> text (the literal \<open>0.6\<close> is
  \<open>JFloat ''0.6''\<close>); no arithmetic is done on floats anywhere in the code. A dictionary is an
  association list in insertion order; \<open>json.load\<close> delivers distinct keys, and every
  lookup below goes through \<open>map_of\<close>. \<open>JNull\<close> is Python's \<open>None\<close>.
\<close>

datatype json =
    JNull
  | JBool bool
  | JInt int
  | JFloat string
  | JString string
  | JArray "json list"
  | JObject "(string \<times> json) list"

text \<open>The exceptions the code can raise or let through.\<close>

datatype error =
    ValueError string
  | FileNotFoundError string
  | KeyError string
  | TypeError
  | AttributeError string
  | JSONDecodeError
  | RequestException string

text \<open>\<open>sub in s\<close> on two strings: \<open>sub\<close> occurs in \<open>s\<close> as a contiguous run.\<close>

fun str_contains :: "string \<Rightarrow> string \<Rightarrow> bool" where
  "str_contains [] sub = (sub = [])"
| "str_contains (c # cs) sub = (prefix sub (c # cs) \<or> str_contains cs sub)"

text \<open>
  \<open>k in x\<close> for a string \<open>k\<close>: key membership on a dictionary, element membership on a
  list, substring test on a string, \<open>TypeError\<close> on anything else.
\<close>

fun py_in :: "string \<Rightarrow> json \<Rightarrow> error + bool" where
  "py_in k (JObject kvs) = Inr (map_of kvs k \<noteq> None)"
| "py_in k (JArray xs) = Inr (JString k \<in> set xs)"
| "py_in k (JString s) = Inr (str_contains s k)"
| "py_in k JNull = Inl TypeError"
| "py_in k (JBool b) = Inl TypeError"
| "py_in k (JInt i) = Inl TypeError"
| "py_in k (JFloat f) = Inl TypeError"

text \<open>\<open>x[k]\<close> for a string \<open>k\<close>: only a dictionary can be subscripted by a string.\<close>

fun py_getitem :: "json \<Rightarrow> string \<Rightarrow> error + json" where
  "py_getitem (JObject kvs) k =
     (case map_of kvs k of None \<Rightarrow> Inl (KeyError k) | Some v \<Rightarrow> Inr v)"
| "py_getitem JNull k = Inl TypeError"
| "py_getitem (JBool b) k = Inl TypeError"
| "py_getitem (JInt i) k = Inl TypeError"
| "py_getitem (JFloat f) k = Inl TypeError"
| "py_getitem (JString s) k = Inl TypeError"
| "py_getitem (JArray xs) k = Inl TypeError"

text \<open>\<open>x.get(k, default)\<close>: a method of dictionaries only.\<close>

fun dict_get :: "json \<Rightarrow> string \<Rightarrow> json \<Rightarrow> error + json" where
  "dict_get (JObject kvs) k dflt =
     (case map_of kvs k of None \<Rightarrow> Inr dflt | Some v \<Rightarrow> Inr v)"
| "dict_get JNull k dflt = Inl (AttributeError ''get'')"
| "dict_get (JBool b) k dflt = Inl (AttributeError ''get'')"
| "dict_get (JInt i) k dflt = Inl (AttributeError ''get'')"
| "dict_get (JFloat f) k dflt = Inl (AttributeError ''get'')"
| "dict_get (JString s) k dflt = Inl (AttributeError ''get'')"
| "dict_get (JArray xs) k dflt = Inl (AttributeError ''get'')"

text \<open>\<open>len(x)\<close>.\<close>

fun py_len :: "json \<Rightarrow> error + int" where
  "py_len (JArray xs) = Inr (int (length xs))"
| "py_len (JObject kvs) = Inr (int (length kvs))"
| "py_len (JString s) = Inr (int (length s))"
| "py_len JNull = Inl TypeError"
| "py_len (JBool b) = Inl TypeError"
| "py_len (JInt i) = Inl TypeError"
| "py_len (JFloat f) = Inl TypeError"

text \<open>
  Iterating over \<open>x\<close> (a \<open>for\<close> clause, \<open>list.extend\<close>): the items of a list, the keys of
  a dictionary, the one-character strings of a string.
\<close>

fun py_iter :: "json \<Rightarrow> error + json list" where
  "py_iter (JArray xs) = Inr xs"
| "py_iter (JObject kvs) = Inr (map (\<lambda>kv. JString (fst kv)) kvs)"
| "py_iter (JString s) = Inr (map (\<lambda>c. JString [c]) s)"
| "py_iter JNull = Inl TypeError"
| "py_iter (JBool b) = Inl TypeError"
| "py_iter (JInt i) = Inl TypeError"
| "py_iter (JFloat f) = Inl TypeError"

text \<open>Sequencing of steps that may raise: the first exception ends the computation.\<close>

definition and_then :: "error + 'a \<Rightarrow> ('a \<Rightarrow> error + 'b) \<Rightarrow> error + 'b" where
  "and_then r f = (case r of Inl e \<Rightarrow> Inl e | Inr x \<Rightarrow> f x)"

text \<open>
  A list comprehension \<open>[x for x in xs if cond(x)]\<close> whose condition may raise: the
  conditions are evaluated from left to right and the first exception ends the comprehension.
\<close>

fun comprehension :: "('a \<Rightarrow> error + bool) \<Rightarrow> 'a list \<Rightarrow> error + 'a list" where
  "comprehension cond [] = Inr []"
| "comprehension cond (x # xs) =
     (case cond x of
        Inl e \<Rightarrow> Inl e
      | Inr b \<Rightarrow>
          (case comprehension cond xs of
             Inl e \<Rightarrow> Inl e
           | Inr ys \<Rightarrow> Inr (if b then x # ys else ys)))"

section \<open>The file system\<close>

text \<open>
  A directory is the list of its files, name and text, in the order in which the directory
  is listed; the first entry of a name is the file, so a lookup is \<open>map_of\<close>, a write is
  \<open>AList.update\<close> and a listing is taken from \<open>AList.clearjunk\<close>. The file system maps
  the name of a directory to the directory. Reads and writes other than the ones the code
  checks for itself always succeed.
\<close>

type_synonym directory = "(string \<times> string) list"
type_synonym filesystem = "string \<Rightarrow> directory"

definition write_file :: "filesystem \<Rightarrow> string \<Rightarrow> string \<Rightarrow> string \<Rightarrow> filesystem" where
  "write_file fs dir name content = fs(dir := AList.update name content (fs dir))"

text \<open>\<open>dir.glob("*.json")\<close>, each file with the text that opening it reads.\<close>

definition glob_json :: "directory \<Rightarrow> (string \<times> string) list" where
  "glob_json d = filter (\<lambda>f. suffix ''.json'' (fst f)) (AList.clearjunk d)"

section \<open>services/data_handler.py\<close>

record LocationDataHandler =
  raw_data_dir :: string
  filtered_data_dir :: string

text \<open>
  \<open>json.load\<close> and \<open>json.dump\<close> belong to the standard library and are parameters
  of the model: \<open>loads\<close> parses a text (\<open>None\<close> is \<open>json.JSONDecodeError\<close>),
  \<open>dumps indent\<close> serialises a value; \<open>json.dump\<close> writes to a file the text that
  \<open>json.dumps\<close> returns.
\<close>

type_synonym json_loads = "string \<Rightarrow> json option"
type_synonym json_dumps = "nat option \<Rightarrow> json \<Rightarrow> string"

definition load_data ::
  "json_loads \<Rightarrow> LocationDataHandler \<Rightarrow> filesystem \<Rightarrow> string \<Rightarrow> error + json" where
  "load_data loads h fs filename =
     (case map_of (fs (raw_data_dir h)) filename of
        None \<Rightarrow>
          Inl (FileNotFoundError (''File '' @ filename @ '' not found in '' @ raw_data_dir h))
      | Some content \<Rightarrow>
          (case loads content of None \<Rightarrow> Inl JSONDecodeError | Some data \<Rightarrow> Inr data))"

text \<open>\<open>s.rsplit('.', 1)[0]\<close>: \<open>s\<close> up to its last dot, all of \<open>s\<close> when it has none.\<close>

definition rsplit_dot_head :: "string \<Rightarrow> string" where
  "rsplit_dot_head s =
     (if CHR ''.'' \<in> set s then rev (tl (dropWhile (\<lambda>c. c \<noteq> CHR ''.'') (rev s))) else s)"

definition save_filtered_data ::
  "json_dumps \<Rightarrow> LocationDataHandler \<Rightarrow> filesystem \<Rightarrow> json \<Rightarrow> string \<Rightarrow> string
     \<Rightarrow> string \<times> filesystem" where
  "save_filtered_data dumps h fs data original_filename sfx =
     (let base_name = rsplit_dot_head original_filename;
          new_filename = base_name @ ''_'' @ sfx @ ''.json''
      in (new_filename, write_file fs (filtered_data_dir h) new_filename (dumps (Some 2) data)))"

text \<open>\<open>'tags' in elem and 'name' in elem['tags']\<close>\<close>

definition has_name :: "json \<Rightarrow> error + bool" where
  "has_name elem =
     and_then (py_in ''tags'' elem) (\<lambda>b.
       if b then and_then (py_getitem elem ''tags'') (\<lambda>tags. py_in ''name'' tags)
       else Inr False)"

text \<open>\<open>'tags' not in elem or 'name' not in elem['tags']\<close>\<close>

definition lacks_name :: "json \<Rightarrow> error + bool" where
  "lacks_name elem =
     and_then (py_in ''tags'' elem) (\<lambda>b.
       if \<not> b then Inr True
       else and_then (py_getitem elem ''tags'') (\<lambda>tags.
              and_then (py_in ''name'' tags) (\<lambda>n. Inr (\<not> n))))"

text \<open>
  The dictionary \<open>filtered_data\<close> that \<open>filter_named_locations\<close> builds from the loaded
  \<open>data\<close>, from \<open>original_count = len(data['elements'])\<close> to the dictionary display.
\<close>

definition named_filtered_data :: "string \<Rightarrow> json \<Rightarrow> error + json" where
  "named_filtered_data filename data =
     and_then (py_getitem data ''elements'') (\<lambda>elements.
     and_then (py_len elements) (\<lambda>original_count.
     and_then (py_iter elements) (\<lambda>elems.
     and_then (comprehension has_name elems) (\<lambda>filtered_elements.
     and_then (dict_get data ''version'' (JFloat ''0.6'')) (\<lambda>version.
       Inr (JObject
         [(''version'', version),
          (''generator'', JString ''Filtered Data''),
          (''original_file'', JString filename),
          (''filter_type'', JString ''named_only''),
          (''original_count'', JInt original_count),
          (''filtered_count'', JInt (int (length filtered_elements))),
          (''elements'', JArray filtered_elements)]))))))"

definition filter_named_locations ::
  "json_loads \<Rightarrow> json_dumps \<Rightarrow> LocationDataHandler \<Rightarrow> filesystem \<Rightarrow> string
     \<Rightarrow> (error + string) \<times> filesystem" where
  "filter_named_locations loads dumps h fs filename =
     (case load_data loads h fs filename of
        Inl e \<Rightarrow> (Inl e, fs)
      | Inr data \<Rightarrow>
          (case named_filtered_data filename data of
             Inl e \<Rightarrow> (Inl e, fs)
           | Inr filtered_data \<Rightarrow>
               (let (new_filename, fs') =
                      save_filtered_data dumps h fs filtered_data filename ''named_only''
                in (Inr new_filename, fs'))))"

text \<open>The same for \<open>filter_unnamed_locations\<close>.\<close>

definition unnamed_filtered_data :: "string \<Rightarrow> json \<Rightarrow> error + json" where
  "unnamed_filtered_data filename data =
     and_then (py_getitem data ''elements'') (\<lambda>elements.
     and_then (py_len elements) (\<lambda>original_count.
     and_then (py_iter elements) (\<lambda>elems.
     and_then (comprehension lacks_name elems) (\<lambda>filtered_elements.
     and_then (dict_get data ''version'' (JFloat ''0.6'')) (\<lambda>version.
       Inr (JObject
         [(''version'', version),
          (''generator'', JString ''Filtered Data''),
          (''original_file'', JString filename),
          (''filter_type'', JString ''unnamed_only''),
          (''original_count'', JInt original_count),
          (''filtered_count'', JInt (int (length filtered_elements))),
          (''elements'', JArray filtered_elements)]))))))"

definition filter_unnamed_locations ::
  "json_loads \<Rightarrow> json_dumps \<Rightarrow> LocationDataHandler \<Rightarrow> filesystem \<Rightarrow> string
     \<Rightarrow> (error + string) \<times> filesystem" where
  "filter_unnamed_locations loads dumps h fs filename =
     (case load_data loads h fs filename of
        Inl e \<Rightarrow> (Inl e, fs)
      | Inr data \<Rightarrow>
          (case unnamed_filtered_data filename data of
             Inl e \<Rightarrow> (Inl e, fs)
           | Inr filtered_data \<Rightarrow>
               (let (new_filename, fs') =
                      save_filtered_data dumps h fs filtered_data filename ''unnamed_only''
                in (Inr new_filename, fs'))))"

subsection \<open>count_objects\<close>

record dir_counts =
  total_objects :: int
  files :: "(string \<times> int) list"

record object_counts =
  raw_data :: dir_counts
  filtered_data :: dir_counts

text \<open>
  The body of each of the two loops of \<open>count_objects\<close>, for one file of the listing.
  Only \<open>json.JSONDecodeError\<close> is caught; any other exception leaves \<open>count_objects\<close>.
\<close>

definition count_file :: "json_loads \<Rightarrow> dir_counts \<Rightarrow> string \<times> string \<Rightarrow> error + dir_counts" where
  "count_file loads c f =
     (case loads (snd f) of
        None \<Rightarrow> Inr (c\<lparr>files := AList.update (fst f) 0 (files c)\<rparr>)
      | Some data \<Rightarrow>
          and_then (dict_get data ''elements'' (JArray [])) (\<lambda>elements.
          and_then (py_len elements) (\<lambda>num_objects.
            Inr (c\<lparr>files := AList.update (fst f) num_objects (files c),
                   total_objects := total_objects c + num_objects\<rparr>))))"

fun count_files :: "json_loads \<Rightarrow> dir_counts \<Rightarrow> (string \<times> string) list \<Rightarrow> error + dir_counts" where
  "count_files loads c [] = Inr c"
| "count_files loads c (f # fl) =
     (case count_file loads c f of
        Inl e \<Rightarrow> Inl e
      | Inr c' \<Rightarrow> count_files loads c' fl)"

definition count_objects ::
  "json_loads \<Rightarrow> LocationDataHandler \<Rightarrow> filesystem \<Rightarrow> error + object_counts" where
  "count_objects loads h fs =
     and_then (count_files loads \<lparr>total_objects = 0, files = []\<rparr>
                 (glob_json (fs (raw_data_dir h)))) (\<lambda>raw.
     and_then (count_files loads \<lparr>total_objects = 0, files = []\<rparr>
                 (glob_json (fs (filtered_data_dir h)))) (\<lambda>filtered.
       Inr \<lparr>raw_data = raw, filtered_data = filtered\<rparr>))"

subsection \<open>main.py: analyze_example\<close>

text \<open>
  The attributes of a \<open>LocationDataHandler\<close> object: the two fields that \<open>__init__\<close>
  sets and the methods of the class, in source order.
\<close>

definition LocationDataHandler_attributes :: "string list" where
  "LocationDataHandler_attributes =
     [''raw_data_dir'', ''filtered_data_dir'', ''__init__'', ''load_data'',
      ''save_filtered_data'', ''filter_named_locations'', ''filter_unnamed_locations'',
      ''list_raw_files'', ''list_filtered_files'', ''count_objects'', ''print_object_counts'']"

text \<open>
  \<open>handler.name(args)\<close>: the attribute is looked up first, and a name the object does not
  have raises \<open>AttributeError\<close>. \<open>body\<close> stands for the bodies of the methods the class
  defines; it is consulted for those names only.
\<close>

definition call_method ::
  "(string \<Rightarrow> json list \<Rightarrow> error + json) \<Rightarrow> string \<Rightarrow> json list \<Rightarrow> error + json" where
  "call_method body name args =
     (if name \<in> set LocationDataHandler_attributes then body name args
      else Inl (AttributeError name))"

definition analyze_example ::
  "(string \<Rightarrow> json list \<Rightarrow> error + json) \<Rightarrow> json_loads \<Rightarrow> LocationDataHandler \<Rightarrow> filesystem
     \<Rightarrow> string \<Rightarrow> error + unit" where
  "analyze_example body loads h fs filename =
     and_then (load_data loads h fs filename) (\<lambda>data.
     and_then (call_method body ''get_statistics'' [data]) (\<lambda>stats.
     and_then (py_getitem stats ''total_elements'') (\<lambda>total.
     and_then (py_getitem stats ''elements_with_names'') (\<lambda>named.
     and_then (call_method body ''filter_by_tags''
                 [data, JObject [(''religion'', JString ''christian'')]]) (\<lambda>filtered.
     and_then (py_getitem filtered ''elements'') (\<lambda>elements.
     and_then (py_len elements) (\<lambda>n. Inr ())))))))"

section \<open>services/fetcher.py\<close>

text \<open>
  A bounding box is four floats, each kept as its \<open>repr\<close> text: the code only formats
  them into the query.
\<close>

type_synonym subarea = "string \<times> string \<times> string \<times> string"

record area =
  bounds :: subarea
  subareas :: "subarea list"

record OverpassFetcher =
  cache_dir :: string
  areas :: "(string \<times> area) list"

text \<open>\<open>__init__\<close>; a directory of the file system model needs no creating.\<close>

definition new_OverpassFetcher :: "string \<Rightarrow> OverpassFetcher" where
  "new_OverpassFetcher dir =
     \<lparr>cache_dir = dir,
      areas =
        [(''northern_europe'',
          \<lparr>bounds = (''55.0'', ''4.0'', ''71.0'', ''32.0''),
           subareas =
             [(''55.0'', ''4.0'', ''63.0'', ''18.0''),
              (''63.0'', ''4.0'', ''71.0'', ''18.0''),
              (''55.0'', ''18.0'', ''63.0'', ''32.0''),
              (''63.0'', ''18.0'', ''71.0'', ''32.0'')]\<rparr>),
         (''central_europe'',
          \<lparr>bounds = (''45.0'', ''6.0'', ''55.0'', ''24.0''),
           subareas =
             [(''45.0'', ''6.0'', ''50.0'', ''15.0''),
              (''50.0'', ''6.0'', ''55.0'', ''15.0''),
              (''45.0'', ''15.0'', ''50.0'', ''24.0''),
              (''50.0'', ''15.0'', ''55.0'', ''24.0'')]\<rparr>),
         (''southern_europe'',
          \<lparr>bounds = (''35.0'', ''-10.0'', ''45.0'', ''28.0''),
           subareas =
             [(''35.0'', ''-10.0'', ''40.0'', ''9.0''),
              (''40.0'', ''-10.0'', ''45.0'', ''9.0''),
              (''35.0'', ''9.0'', ''40.0'', ''28.0''),
              (''40.0'', ''9.0'', ''45.0'', ''28.0'')]\<rparr>)]\<rparr>"

fun join :: "string \<Rightarrow> string list \<Rightarrow> string" where
  "join sep [] = []"
| "join sep [x] = x"
| "join sep (x # y # ys) = x @ sep @ join sep (y # ys)"

text \<open>
  \<open>str\<close> of a list of strings, for strings that \<open>repr\<close> writes between single quotes
  with no escapes, as the names of the areas are.
\<close>

definition repr_str_list :: "string list \<Rightarrow> string" where
  "repr_str_list xs = ''['' @ join '', '' (map (\<lambda>x. [CHR 0x27] @ x @ [CHR 0x27]) xs) @ '']''"

definition get_subareas :: "OverpassFetcher \<Rightarrow> string \<Rightarrow> error + subarea list" where
  "get_subareas f area_name =
     (case map_of (areas f) area_name of
        None \<Rightarrow>
          Inl (ValueError (''Unknown area: '' @ area_name @ ''. Available areas: ''
                 @ repr_str_list (map fst (areas f))))
      | Some a \<Rightarrow> Inr (subareas a))"

definition get_tag_key :: "string \<Rightarrow> string" where
  "get_tag_key node_type =
     (case map_of
        [(''place_of_worship'', ''amenity''),
         (''police'', ''amenity''),
         (''park'', ''leisure''),
         (''school'', ''amenity''),
         (''hospital'', ''amenity''),
         (''restaurant'', ''amenity'')] node_type of
        None \<Rightarrow> node_type
      | Some k \<Rightarrow> k)"

definition get_tag_value :: "string \<Rightarrow> string" where
  "get_tag_value node_type =
     (case map_of
        [(''place_of_worship'', ''place_of_worship''),
         (''police'', ''police''),
         (''park'', ''park''),
         (''school'', ''school''),
         (''hospital'', ''hospital''),
         (''restaurant'', ''restaurant'')] node_type of
        None \<Rightarrow> node_type
      | Some v \<Rightarrow> v)"

definition build_query :: "string \<Rightarrow> subarea \<Rightarrow> string" where
  "build_query node_type bnds =
     (case bnds of (min_lat, min_lon, max_lat, max_lon) \<Rightarrow>
        (let nl = [CHR 0x0A];
             tag = ''['' @ [CHR 0x22] @ get_tag_key node_type @ [CHR 0x22] @ ''=''
                     @ [CHR 0x22] @ get_tag_value node_type @ [CHR 0x22] @ '']'';
             box = ''('' @ min_lat @ '','' @ min_lon @ '','' @ max_lat @ '','' @ max_lon @ '');''
         in concat
           [nl,
            ''            [out:json][timeout:300];'', nl,
            ''            ('', nl,
            ''              node'', tag, nl,
            ''                '', box, nl,
            ''              way'', tag, nl,
            ''                '', box, nl,
            ''              relation'', tag, nl,
            ''                '', box, nl,
            ''            );'', nl,
            ''            out body;'', nl,
            ''            >;'', nl,
            ''            out skel qt;'', nl,
            ''        '']))"

subsection \<open>The network and the clock\<close>

text \<open>
  What the process does to the outside, in order: a POST of a query, a \<open>time.sleep\<close>.
  The service answers a request either with a failure that \<open>requests\<close> raises as a
  \<open>RequestException\<close> (connection error, timeout, error status from
  \<open>raise_for_status\<close>, a broken stream) or with a body that is received to its end. The
  answer may depend on the query and on everything that happened before. The progress bar
  is display only and is left out.
\<close>

datatype event = Request string | Sleep int

datatype response = RequestFailed string | Body string

type_synonym network = "event list \<Rightarrow> string \<Rightarrow> response"

text \<open>
  The loop of \<open>fetch_with_progress\<close> over the remaining values of \<open>attempt\<close>. A body
  that \<open>json.loads\<close> rejects raises \<open>json.JSONDecodeError\<close>, which the
  \<open>except requests.exceptions.RequestException\<close> clause does not catch. When the
  loop ends without a \<open>return\<close> the function returns \<open>None\<close>.
\<close>

fun attempt_loop ::
  "network \<Rightarrow> json_loads \<Rightarrow> string \<Rightarrow> int \<Rightarrow> int \<Rightarrow> int list \<Rightarrow> event list
     \<Rightarrow> (error + json) \<times> event list" where
  "attempt_loop net loads query retries delay [] evs = (Inr JNull, evs)"
| "attempt_loop net loads query retries delay (attempt # rest) evs =
     (case net evs query of
        Body content \<Rightarrow>
          (case loads content of
             Some data \<Rightarrow> (Inr data, evs @ [Request query])
           | None \<Rightarrow> (Inl JSONDecodeError, evs @ [Request query]))
      | RequestFailed msg \<Rightarrow>
          if attempt < retries - 1 then
            if delay < 0 then
              (Inl (ValueError ''sleep length must be non-negative''), evs @ [Request query])
            else attempt_loop net loads query retries delay rest
                   (evs @ [Request query, Sleep delay])
          else (Inl (RequestException msg), evs @ [Request query]))"

definition fetch_with_progress ::
  "network \<Rightarrow> json_loads \<Rightarrow> string \<Rightarrow> int \<Rightarrow> int \<Rightarrow> event list
     \<Rightarrow> (error + json) \<times> event list" where
  "fetch_with_progress net loads query retries delay evs =
     attempt_loop net loads query retries delay (map int [0..<nat retries]) evs"

subsection \<open>fetch_data\<close>

record world =
  disk :: filesystem
  events :: "event list"

text \<open>
  The name of the cache file inside \<open>cache_dir\<close>; \<open>today\<close> is
  \<open>datetime.now().strftime('%Y%m%d')\<close>.
\<close>

definition cache_file :: "string \<Rightarrow> string \<Rightarrow> string \<Rightarrow> string" where
  "cache_file node_type area_name today =
     node_type @ ''_'' @ area_name @ ''_'' @ today @ ''.json''"

text \<open>
  The loop over the subareas. The \<open>try\<close> covers the fetch, \<open>data.get\<close> and
  \<open>all_elements.extend\<close>; \<open>except Exception\<close> goes on with the next subarea.
\<close>

fun subarea_loop ::
  "network \<Rightarrow> json_loads \<Rightarrow> string \<Rightarrow> subarea list \<Rightarrow> json list \<Rightarrow> event list
     \<Rightarrow> json list \<times> event list" where
  "subarea_loop net loads node_type [] all_elements evs = (all_elements, evs)"
| "subarea_loop net loads node_type (sub # rest) all_elements evs =
     (case fetch_with_progress net loads (build_query node_type sub) 3 5 evs of
        (Inl e, evs') \<Rightarrow> subarea_loop net loads node_type rest all_elements evs'
      | (Inr data, evs') \<Rightarrow>
          (case and_then (dict_get data ''elements'' (JArray [])) py_iter of
             Inl e \<Rightarrow> subarea_loop net loads node_type rest all_elements evs'
           | Inr elements \<Rightarrow>
               subarea_loop net loads node_type rest (all_elements @ elements) evs'))"

definition fetch_data ::
  "network \<Rightarrow> json_loads \<Rightarrow> json_dumps \<Rightarrow> OverpassFetcher \<Rightarrow> string \<Rightarrow> string \<Rightarrow> string
     \<Rightarrow> world \<Rightarrow> (error + string) \<times> world" where
  "fetch_data net loads dumps f today node_type area_name w =
     (case map_of (disk w (cache_dir f)) (cache_file node_type area_name today) of
        Some content \<Rightarrow> (Inr content, w)
      | None \<Rightarrow>
          (case get_subareas f area_name of
             Inl e \<Rightarrow> (Inl e, w)
           | Inr subs \<Rightarrow>
               (case subarea_loop net loads node_type subs [] (events w) of
                  (all_elements, evs') \<Rightarrow>
                    (let combined_data = JObject
                           [(''version'', JFloat ''0.6''),
                            (''generator'', JString ''Overpass API''),
                            (''elements'', JArray all_elements)]
                     in (Inr (dumps None combined_data),
                         \<lparr>disk = write_file (disk w) (cache_dir f)
                                   (cache_file node_type area_name today)
                                   (dumps None combined_data),
                          events = evs'\<rparr>)))))"

section \<open>Notions used to state the properties\<close>

subsection \<open>Result sets\<close>

text \<open>
  An element is a record with an optional \<open>tags\<close> mapping; a result set is a dictionary
  whose \<open>elements\<close> is a list of elements.
\<close>

definition is_element :: "json \<Rightarrow> bool" where
  "is_element e =
     (case e of
        JObject kvs \<Rightarrow>
          (case map_of kvs ''tags'' of
             None \<Rightarrow> True
           | Some (JObject tags) \<Rightarrow> True
           | Some _ \<Rightarrow> False)
      | _ \<Rightarrow> False)"

definition is_result_set :: "json \<Rightarrow> bool" where
  "is_result_set data =
     (case data of
        JObject kvs \<Rightarrow>
          (case map_of kvs ''elements'' of
             Some (JArray es) \<Rightarrow> list_all is_element es
           | _ \<Rightarrow> False)
      | _ \<Rightarrow> False)"

text \<open>The element possesses a tags mapping that includes a \<open>name\<close> key.\<close>

definition has_name_tag :: "json \<Rightarrow> bool" where
  "has_name_tag e =
     (case e of
        JObject kvs \<Rightarrow>
          (case map_of kvs ''tags'' of
             Some (JObject tags) \<Rightarrow> map_of tags ''name'' \<noteq> None
           | _ \<Rightarrow> False)
      | _ \<Rightarrow> False)"

text \<open>
  What a file of a data directory holds when it parses: a dictionary whose \<open>elements\<close>,
  when present, is a list; and the number of its elements.
\<close>

definition has_elements_array :: "json \<Rightarrow> bool" where
  "has_elements_array data =
     (case data of
        JObject kvs \<Rightarrow>
          (case map_of kvs ''elements'' of
             None \<Rightarrow> True
           | Some (JArray es) \<Rightarrow> True
           | Some _ \<Rightarrow> False)
      | _ \<Rightarrow> False)"

definition num_elements :: "json \<Rightarrow> int" where
  "num_elements data =
     (case data of
        JObject kvs \<Rightarrow>
          (case map_of kvs ''elements'' of
             Some (JArray es) \<Rightarrow> int (length es)
           | _ \<Rightarrow> 0)
      | _ \<Rightarrow> 0)"

text \<open>A file that is malformed JSON, or parses to such a dictionary.\<close>

definition countable_file :: "json_loads \<Rightarrow> string \<times> string \<Rightarrow> bool" where
  "countable_file loads f =
     (case loads (snd f) of None \<Rightarrow> True | Some data \<Rightarrow> has_elements_array data)"

text \<open>The number of elements a file adds to the total: none when it does not parse.\<close>

definition file_objects :: "json_loads \<Rightarrow> string \<times> string \<Rightarrow> int" where
  "file_objects loads f = (case loads (snd f) of None \<Rightarrow> 0 | Some data \<Rightarrow> num_elements data)"

subsection \<open>Attempts\<close>

text \<open>The events of \<open>k\<close> failed attempts at a query, each followed by the delay.\<close>

definition retried :: "string \<Rightarrow> int \<Rightarrow> nat \<Rightarrow> event list" where
  "retried q d k = concat (replicate k [Request q, Sleep d])"

section \<open>Example data\<close>

text \<open>
  A compact serialiser and the parser of the documents of the examples, standing for
  \<open>json.dumps\<close> and \<open>json.loads\<close> there. The serialiser escapes nothing and ignores the
  indentation.
\<close>

fun show_nat :: "nat \<Rightarrow> string" where
  "show_nat n =
     (if n < 10 then [char_of (48 + n)] else show_nat (n div 10) @ [char_of (48 + n mod 10)])"

declare show_nat.simps [simp del]

definition show_int :: "int \<Rightarrow> string" where
  "show_int i = (if i < 0 then ''-'' @ show_nat (nat (- i)) else show_nat (nat i))"

fun demo_text :: "json \<Rightarrow> string" where
  "demo_text JNull = ''null''"
| "demo_text (JBool b) = (if b then ''true'' else ''false'')"
| "demo_text (JInt i) = show_int i"
| "demo_text (JFloat r) = r"
| "demo_text (JString s) = [CHR 0x22] @ s @ [CHR 0x22]"
| "demo_text (JArray xs) = ''['' @ join '', '' (map demo_text xs) @ '']''"
| "demo_text (JObject kvs) =
     ''{'' @ join '', ''
              (map (\<lambda>kv. [CHR 0x22] @ fst kv @ [CHR 0x22] @ '': '' @ demo_text (snd kv)) kvs)
         @ ''}''"

definition demo_dumps :: json_dumps where
  "demo_dumps indent data = demo_text data"

text \<open>Five elements, three of them with a \<open>name\<close> tag.\<close>

definition demo_elements :: "json list" where
  "demo_elements =
     [JObject [(''type'', JString ''node''), (''id'', JInt 1),
               (''tags'', JObject [(''amenity'', JString ''hospital''), (''name'', JString ''A'')])],
      JObject [(''type'', JString ''node''), (''id'', JInt 2)],
      JObject [(''type'', JString ''way''), (''id'', JInt 3),
               (''tags'', JObject [(''name'', JString ''B'')])],
      JObject [(''type'', JString ''node''), (''id'', JInt 4),
               (''tags'', JObject [(''amenity'', JString ''hospital'')])],
      JObject [(''type'', JString ''relation''), (''id'', JInt 5),
               (''tags'', JObject [(''name'', JString [])])]]"

definition demo_result_set :: json where
  "demo_result_set =
     JObject [(''version'', JFloat ''0.6''), (''generator'', JString ''Overpass API''),
              (''elements'', JArray demo_elements)]"

definition three_elements :: json where
  "three_elements = JObject [(''elements'', JArray [JInt 1, JInt 2, JInt 3])]"

definition one_element :: json where
  "one_element = JObject [(''elements'', JArray [JInt 7])]"

definition two_elements :: json where
  "two_elements = JObject [(''elements'', JArray [JInt 8, JInt 9])]"

definition no_elements_key :: json where
  "no_elements_key = JObject [(''remark'', JString ''runtime error'')]"

definition demo_loads :: json_loads where
  "demo_loads s =
     List.find (\<lambda>d. demo_text d = s)
       [demo_result_set, three_elements, one_element, two_elements, no_elements_key]"

definition demo_handler :: LocationDataHandler where
  "demo_handler = \<lparr>raw_data_dir = ''data_cache'', filtered_data_dir = ''filtered_data''\<rparr>"

definition demo_fs :: filesystem where
  "demo_fs =
     (\<lambda>d. []) (''data_cache'' :=
        [(''hospital.json'', demo_text demo_result_set),
         (''three.json'', demo_text three_elements),
         (''broken.json'', ''{not json''),
         (''remark.json'', demo_text no_elements_key),
         (''notes.txt'', ''not listed'')],
      ''filtered_data'' :=
        [(''three_named_only.json'', demo_text three_elements),
         (''broken.json'', [])])"

text \<open>
  A network that answers the \<open>n\<close>-th request of the run with the \<open>n\<close>-th entry of a
  script, and with \<open>dflt\<close> once the script is used up.
\<close>

definition requests_sent :: "event list \<Rightarrow> nat" where
  "requests_sent evs = length (filter (\<lambda>e. case e of Request q \<Rightarrow> True | Sleep d \<Rightarrow> False) evs)"

definition scripted :: "response list \<Rightarrow> response \<Rightarrow> network" where
  "scripted script dflt evs q =
     (if requests_sent evs < length script then script ! requests_sent evs else dflt)"

definition demo_world :: world where
  "demo_world = \<lparr>disk = demo_fs, events = []\<rparr>"

section \<open>Properties\<close>

lemma and_then_Inr_iff:
  "and_then r f = Inr y \<longleftrightarrow> (\<exists>x. r = Inr x \<and> f x = Inr y)"
  by (cases r) (simp_all add: and_then_def)

lemma and_then_simps [simp]:
  "and_then (Inl e) f = Inl e"
  "and_then (Inr x) f = f x"
  by (simp_all add: and_then_def)

lemma comprehension_Inr_iff:
  "comprehension c xs = Inr ys \<longleftrightarrow>
     (\<forall>x\<in>set xs. \<exists>b. c x = Inr b) \<and> ys = filter (\<lambda>x. c x = Inr True) xs"
proof (induction xs arbitrary: ys)
  case Nil
  show ?case by auto
next
  case (Cons x xs)
  show ?case
  proof (cases "c x")
    case (Inl e)
    then show ?thesis by auto
  next
    case (Inr b)
    show ?thesis
    proof (cases "comprehension c xs")
      case (Inl e)
      with Inr Cons.IH show ?thesis by auto
    next
      case r: (Inr zs)
      with Inr Cons.IH [of zs] show ?thesis by auto
    qed
  qed
qed

lemma lacks_name_has_name:
  "lacks_name e = Inr b \<longleftrightarrow> has_name e = Inr (\<not> b)"
  unfolding lacks_name_def has_name_def
  by (cases "py_in ''tags'' e"; cases "py_getitem e ''tags''")
     (auto simp: and_then_Inr_iff split: if_splits)

lemma has_name_element:
  "is_element e \<Longrightarrow> has_name e = Inr (has_name_tag e)"
  unfolding is_element_def has_name_def has_name_tag_def
  by (auto split: json.splits option.splits)




lemma comprehension_has_name:
  "list_all is_element es \<Longrightarrow> comprehension has_name es = Inr (filter has_name_tag es)"
  by (auto simp: comprehension_Inr_iff list_all_iff has_name_element intro!: filter_cong)

lemma comprehension_lacks_name:
  "list_all is_element es \<Longrightarrow>
     comprehension lacks_name es = Inr (filter (\<lambda>e. \<not> has_name_tag e) es)"
  by (auto simp: comprehension_Inr_iff list_all_iff lacks_name_has_name has_name_element
        intro!: filter_cong)

lemma named_filtered_data_result_set:
  assumes "map_of kvs ''elements'' = Some (JArray es)" and "list_all is_element es"
  shows "named_filtered_data filename (JObject kvs) =
           Inr (JObject
             [(''version'', case map_of kvs ''version'' of None \<Rightarrow> JFloat ''0.6'' | Some v \<Rightarrow> v),
              (''generator'', JString ''Filtered Data''),
              (''original_file'', JString filename),
              (''filter_type'', JString ''named_only''),
              (''original_count'', JInt (int (length es))),
              (''filtered_count'', JInt (int (length (filter has_name_tag es)))),
              (''elements'', JArray (filter has_name_tag es))])"
  using assms
  by (simp add: named_filtered_data_def comprehension_has_name split: option.splits)

lemma unnamed_filtered_data_result_set:
  assumes "map_of kvs ''elements'' = Some (JArray es)" and "list_all is_element es"
  shows "unnamed_filtered_data filename (JObject kvs) =
           Inr (JObject
             [(''version'', case map_of kvs ''version'' of None \<Rightarrow> JFloat ''0.6'' | Some v \<Rightarrow> v),
              (''generator'', JString ''Filtered Data''),
              (''original_file'', JString filename),
              (''filter_type'', JString ''unnamed_only''),
              (''original_count'', JInt (int (length es))),
              (''filtered_count'', JInt (int (length (filter (\<lambda>e. \<not> has_name_tag e) es)))),
              (''elements'', JArray (filter (\<lambda>e. \<not> has_name_tag e) es))])"
  using assms
  by (simp add: unnamed_filtered_data_def comprehension_lacks_name split: option.splits)

lemma result_set_cases:
  assumes "is_result_set data"
  obtains kvs es where "data = JObject kvs" "map_of kvs ''elements'' = Some (JArray es)"
    "list_all is_element es"
  using assms unfolding is_result_set_def
  by (auto split: json.splits option.splits)

text \<open>
  Claim C1. For every result set, the elements kept by \<open>filter_named_locations\<close> and the
  elements kept by \<open>filter_unnamed_locations\<close> together are exactly the elements of the
  result set, none lost and none duplicated (equality of multisets); the two parts are
  disjoint; and each part is a subsequence of the original list, so it keeps the original
  order. Both filters succeed on a result set.
\<close>

theorem filter_named_unnamed_partition:
  assumes "is_result_set data"
  shows "\<exists>es ns us dn du.
           py_getitem data ''elements'' = Inr (JArray es) \<and>
           named_filtered_data filename data = Inr dn \<and>
           unnamed_filtered_data filename data = Inr du \<and>
           py_getitem dn ''elements'' = Inr (JArray ns) \<and>
           py_getitem du ''elements'' = Inr (JArray us) \<and>
           mset ns + mset us = mset es \<and>
           set ns \<inter> set us = {} \<and>
           subseq ns es \<and> subseq us es"
proof -
  from assms obtain kvs es where d: "data = JObject kvs"
    and e: "map_of kvs ''elements'' = Some (JArray es)" and l: "list_all is_element es"
    by (rule result_set_cases)
  let ?ns = "filter has_name_tag es" and ?us = "filter (\<lambda>e. \<not> has_name_tag e) es"
  note n = named_filtered_data_result_set [OF e l, of filename]
    and u = unnamed_filtered_data_result_set [OF e l, of filename]
  have "py_getitem data ''elements'' = Inr (JArray es)"
    using d e by simp
  moreover have "py_getitem (projr (named_filtered_data filename data)) ''elements'' = Inr (JArray ?ns)"
    unfolding d n by simp
  moreover have "py_getitem (projr (unnamed_filtered_data filename data)) ''elements'' = Inr (JArray ?us)"
    unfolding d u by simp
  moreover have "named_filtered_data filename data = Inr (projr (named_filtered_data filename data))"
    unfolding d n by simp
  moreover have "unnamed_filtered_data filename data = Inr (projr (unnamed_filtered_data filename data))"
    unfolding d u by simp
  moreover have "mset ?ns + mset ?us = mset es" by simp
  moreover have "set ?ns \<inter> set ?us = {}" by auto
  moreover have "subseq ?ns es" and "subseq ?us es" by simp_all
  ultimately show ?thesis by blast
qed

text \<open>
  Claim C6. For a file of the raw data directory that holds a result set with elements
  \<open>es\<close>, \<open>filter_named_locations\<close> writes, under the name of the source with
  \<open>_named_only\<close> appended to its stem, the elements that possess a tags mapping with a
  \<open>name\<close> key, in their original order, and \<open>filter_unnamed_locations\<close> writes the
  others; each header records the source filename, the filter kind, \<open>original_count\<close> =
  the number of elements of the input and \<open>filtered_count\<close> = the number of elements
  written.
\<close>

theorem filter_locations_output:
  assumes "map_of (fs (raw_data_dir h)) filename = Some content"
    and "loads content = Some (JObject kvs)"
    and "map_of kvs ''elements'' = Some (JArray es)"
    and "list_all is_element es"
  shows "filter_named_locations loads dumps h fs filename =
           (Inr (rsplit_dot_head filename @ ''_named_only.json''),
            write_file fs (filtered_data_dir h) (rsplit_dot_head filename @ ''_named_only.json'')
              (dumps (Some 2) (JObject
                [(''version'', case map_of kvs ''version'' of None \<Rightarrow> JFloat ''0.6'' | Some v \<Rightarrow> v),
                 (''generator'', JString ''Filtered Data''),
                 (''original_file'', JString filename),
                 (''filter_type'', JString ''named_only''),
                 (''original_count'', JInt (int (length es))),
                 (''filtered_count'', JInt (int (length (filter has_name_tag es)))),
                 (''elements'', JArray (filter has_name_tag es))]))) \<and>
         filter_unnamed_locations loads dumps h fs filename =
           (Inr (rsplit_dot_head filename @ ''_unnamed_only.json''),
            write_file fs (filtered_data_dir h) (rsplit_dot_head filename @ ''_unnamed_only.json'')
              (dumps (Some 2) (JObject
                [(''version'', case map_of kvs ''version'' of None \<Rightarrow> JFloat ''0.6'' | Some v \<Rightarrow> v),
                 (''generator'', JString ''Filtered Data''),
                 (''original_file'', JString filename),
                 (''filter_type'', JString ''unnamed_only''),
                 (''original_count'', JInt (int (length es))),
                 (''filtered_count'', JInt (int (length (filter (\<lambda>e. \<not> has_name_tag e) es)))),
                 (''elements'', JArray (filter (\<lambda>e. \<not> has_name_tag e) es))])))"
proof -
  have l: "load_data loads h fs filename = Inr (JObject kvs)"
    using assms(1,2) by (simp add: load_data_def)
  have n: "named_filtered_data filename (JObject kvs) = Inr (JObject
                [(''version'', case map_of kvs ''version'' of None \<Rightarrow> JFloat ''0.6'' | Some v \<Rightarrow> v),
                 (''generator'', JString ''Filtered Data''),
                 (''original_file'', JString filename),
                 (''filter_type'', JString ''named_only''),
                 (''original_count'', JInt (int (length es))),
                 (''filtered_count'', JInt (int (length (filter has_name_tag es)))),
                 (''elements'', JArray (filter has_name_tag es))])"
    by (rule named_filtered_data_result_set [OF assms(3,4)])
  have u: "unnamed_filtered_data filename (JObject kvs) = Inr (JObject
                [(''version'', case map_of kvs ''version'' of None \<Rightarrow> JFloat ''0.6'' | Some v \<Rightarrow> v),
                 (''generator'', JString ''Filtered Data''),
                 (''original_file'', JString filename),
                 (''filter_type'', JString ''unnamed_only''),
                 (''original_count'', JInt (int (length es))),
                 (''filtered_count'', JInt (int (length (filter (\<lambda>e. \<not> has_name_tag e) es)))),
                 (''elements'', JArray (filter (\<lambda>e. \<not> has_name_tag e) es))])"
    by (rule unnamed_filtered_data_result_set [OF assms(3,4)])
  show ?thesis
    by (simp add: filter_named_locations_def filter_unnamed_locations_def l n u
          save_filtered_data_def Let_def)
qed




lemma retried_0 [simp]: "retried q d 0 = []"
  by (simp add: retried_def)

lemma retried_Suc: "retried q d (Suc k) = Request q # Sleep d # retried q d k"
  by (simp add: retried_def)

lemma upt_int_Cons: "i < n \<Longrightarrow> map int [i..<n] = int i # map int [Suc i..<n]"
  by (simp add: upt_conv_Cons)

text \<open>After k failed attempts the next one decides, if it gets a body or is the last.\<close>

lemma attempt_loop_failures:
  assumes "\<forall>j<k. \<exists>m. net (evs @ retried q d j) q = RequestFailed m"
    and "int (i + k) < r" and "0 \<le> d"
  shows "attempt_loop net loads q r d (map int [i..<nat r]) evs =
           attempt_loop net loads q r d (map int [i + k..<nat r]) (evs @ retried q d k)"
  using assms
proof (induction k arbitrary: i evs)
  case 0
  show ?case by simp
next
  case (Suc k)
  from Suc.prems(1) obtain m where m: "net evs q = RequestFailed m"
    by (metis append_Nil2 retried_0 zero_less_Suc)
  have lt: "i < nat r" and more: "int i < r - 1"
    using Suc.prems(2) by linarith+
  have rest: "\<forall>j<k. \<exists>m. net ((evs @ [Request q, Sleep d]) @ retried q d j) q = RequestFailed m"
  proof (intro allI impI)
    fix j assume "j < k"
    then have "Suc j < Suc k" by simp
    with Suc.prems(1) obtain m' where "net (evs @ retried q d (Suc j)) q = RequestFailed m'"
      by blast
    then show "\<exists>m. net ((evs @ [Request q, Sleep d]) @ retried q d j) q = RequestFailed m"
      by (simp add: retried_Suc)
  qed
  have "attempt_loop net loads q r d (map int [i..<nat r]) evs =
          attempt_loop net loads q r d (map int [Suc i..<nat r]) (evs @ [Request q, Sleep d])"
    using m more Suc.prems(3) by (simp add: upt_int_Cons [OF lt])
  also have "\<dots> = attempt_loop net loads q r d (map int [Suc i + k..<nat r])
                     ((evs @ [Request q, Sleep d]) @ retried q d k)"
    using Suc.prems(2,3) by (intro Suc.IH [OF rest]) simp_all
  finally show ?case by (simp add: retried_Suc)
qed

lemma attempt_loop_body:
  assumes "net evs q = Body b" and "i < nat r"
  shows "attempt_loop net loads q r d (map int [i..<nat r]) evs =
           (case loads b of
              Some data \<Rightarrow> (Inr data, evs @ [Request q])
            | None \<Rightarrow> (Inl JSONDecodeError, evs @ [Request q]))"
  using assms by (simp add: upt_int_Cons)

lemma attempt_loop_last:
  assumes "net evs q = RequestFailed m" and "int i = r - 1"
  shows "attempt_loop net loads q r d (map int [i..<nat r]) evs =
           (Inl (RequestException m), evs @ [Request q])"
proof -
  have "i < nat r" using assms(2) by linarith
  then show ?thesis using assms by (simp add: upt_int_Cons)
qed

text \<open>Every run of the loop, whatever the network answers.\<close>

lemma attempt_loop_run:
  assumes "i < nat r" and "0 \<le> d"
  shows "\<exists>k. int (i + k) < r \<and>
             (\<forall>j<k. \<exists>m. net (evs @ retried q d j) q = RequestFailed m) \<and>
             snd (attempt_loop net loads q r d (map int [i..<nat r]) evs)
               = evs @ retried q d k @ [Request q] \<and>
             (\<forall>m. fst (attempt_loop net loads q r d (map int [i..<nat r]) evs)
                     = Inl (RequestException m) \<longrightarrow>
                  int (i + k) = r - 1 \<and> net (evs @ retried q d k) q = RequestFailed m) \<and>
             ((\<exists>m. net (evs @ retried q d k) q = RequestFailed m) \<longrightarrow>
                  (\<exists>m. fst (attempt_loop net loads q r d (map int [i..<nat r]) evs)
                     = Inl (RequestException m)))"
  using assms
proof (induction "nat r - i" arbitrary: i evs)
  case 0
  then show ?case by simp
next
  case (Suc n)
  show ?case
  proof (cases "net evs q")
    case (Body b)
    have "int (i + 0) < r" using Suc.prems(1) by linarith
    then show ?thesis
      using attempt_loop_body [where net = net and loads = loads and d = d, OF Body Suc.prems(1)] Body
      by (intro exI [of _ 0]) (auto split: option.splits)
  next
    case (RequestFailed m)
    show ?thesis
    proof (cases "int i < r - 1")
      case False
      then have last: "int i = r - 1" using Suc.prems(1) by linarith
      show ?thesis
        using attempt_loop_last [where net = net and loads = loads and d = d, OF RequestFailed last]
          RequestFailed last
        by (intro exI [of _ 0]) auto
    next
      case True
      then have lt: "Suc i < nat r" by linarith
      have n: "n = nat r - Suc i" using Suc.hyps(2) by linarith
      let ?evs = "evs @ [Request q, Sleep d]"
      have step: "attempt_loop net loads q r d (map int [i..<nat r]) evs =
          attempt_loop net loads q r d (map int [Suc i..<nat r]) ?evs"
        using RequestFailed True Suc.prems by (simp add: upt_int_Cons)
      from Suc.hyps(1) [OF n lt Suc.prems(2), of ?evs] obtain k where
        k: "int (Suc i + k) < r"
          "\<forall>j<k. \<exists>m. net (?evs @ retried q d j) q = RequestFailed m"
          "snd (attempt_loop net loads q r d (map int [Suc i..<nat r]) ?evs)
               = ?evs @ retried q d k @ [Request q]"
          "\<forall>m. fst (attempt_loop net loads q r d (map int [Suc i..<nat r]) ?evs)
                     = Inl (RequestException m) \<longrightarrow>
                  int (Suc i + k) = r - 1 \<and> net (?evs @ retried q d k) q = RequestFailed m"
          "(\<exists>m. net (?evs @ retried q d k) q = RequestFailed m) \<longrightarrow>
                  (\<exists>m. fst (attempt_loop net loads q r d (map int [Suc i..<nat r]) ?evs)
                     = Inl (RequestException m))"
        by blast
      have all: "\<forall>j<Suc k. \<exists>m. net (evs @ retried q d j) q = RequestFailed m"
      proof (intro allI impI)
        fix j assume j: "j < Suc k"
        show "\<exists>m. net (evs @ retried q d j) q = RequestFailed m"
        proof (cases j)
          case 0
          then show ?thesis using RequestFailed by simp
        next
          case (Suc j')
          then show ?thesis using k(2) j by (simp add: retried_Suc)
        qed
      qed
      show ?thesis
        unfolding step
        using k(1,3,4,5) all
        by (intro exI [of _ "Suc k"]) (simp add: retried_Suc)
    qed
  qed
qed




lemma fetch_with_progress_exhausted:
  assumes "0 \<le> delay" and "0 < retries"
    and "\<forall>j. int j < retries \<longrightarrow> (\<exists>m. net (evs @ retried q delay j) q = RequestFailed m)"
  shows "\<exists>m. fetch_with_progress net loads q retries delay evs
               = (Inl (RequestException m), evs @ retried q delay (nat retries - 1) @ [Request q])"
proof -
  let ?n = "nat retries - 1"
  have n: "int (0 + ?n) < retries" and l: "int (0 + ?n) = retries - 1" using assms(2) by linarith+
  from assms(3) n obtain m where m: "net (evs @ retried q delay ?n) q = RequestFailed m" by auto
  have f: "\<forall>j<?n. \<exists>m. net (evs @ retried q delay j) q = RequestFailed m"
    using assms(2,3) by auto
  from attempt_loop_failures [where net = net and evs = evs and q = q and loads = loads and i = 0,
      OF f n assms(1)]
    attempt_loop_last [where net = net and loads = loads and d = delay, OF m l]
  show ?thesis by (simp add: fetch_with_progress_def)
qed

text \<open>
  Claim C3. A single fetch with a non-negative delay makes at most \<open>retries\<close> attempts,
  and its events are attempts at the query with the delay between consecutive attempts and
  nothing else; when the first \<open>k < retries\<close> attempts fail in transport and the next
  one brings a body that parses, the data is returned and no failure is raised; a
  \<open>RequestException\<close> leaves the function only when every one of the \<open>retries\<close>
  attempts has failed, and it does leave it then. (The defaults are 3 attempts and a delay
  of 5.)
\<close>

theorem fetch_with_progress_retries:
  assumes "0 \<le> delay"
  shows
    "(retries \<le> 0 \<longrightarrow>
        fetch_with_progress net loads q retries delay evs = (Inr JNull, evs)) \<and>
     (0 < retries \<longrightarrow>
        (\<exists>k. int k < retries \<and>
           snd (fetch_with_progress net loads q retries delay evs)
             = evs @ retried q delay k @ [Request q])) \<and>
     (\<forall>k b data.
        int k < retries \<and>
        (\<forall>j<k. \<exists>m. net (evs @ retried q delay j) q = RequestFailed m) \<and>
        net (evs @ retried q delay k) q = Body b \<and> loads b = Some data \<longrightarrow>
        fetch_with_progress net loads q retries delay evs
          = (Inr data, evs @ retried q delay k @ [Request q])) \<and>
     (\<forall>m. fst (fetch_with_progress net loads q retries delay evs) = Inl (RequestException m) \<longrightarrow>
        (\<forall>j. int j < retries \<longrightarrow> (\<exists>m'. net (evs @ retried q delay j) q = RequestFailed m')) \<and>
        snd (fetch_with_progress net loads q retries delay evs)
          = evs @ retried q delay (nat retries - 1) @ [Request q]) \<and>
     (0 < retries \<and>
      (\<forall>j. int j < retries \<longrightarrow> (\<exists>m. net (evs @ retried q delay j) q = RequestFailed m)) \<longrightarrow>
        (\<exists>m. fetch_with_progress net loads q retries delay evs
               = (Inl (RequestException m), evs @ retried q delay (nat retries - 1) @ [Request q])))"
proof (intro conjI impI allI)
  assume "retries \<le> 0"
  then show "fetch_with_progress net loads q retries delay evs = (Inr JNull, evs)"
    by (simp add: fetch_with_progress_def)
next
  assume pos: "0 < retries"
  then have "0 < nat retries" by simp
  from attempt_loop_run [OF this assms, of net evs q loads]
  show "\<exists>k. int k < retries \<and>
           snd (fetch_with_progress net loads q retries delay evs)
             = evs @ retried q delay k @ [Request q]"
    unfolding fetch_with_progress_def by auto
next
  fix k b data
  assume a: "int k < retries \<and>
        (\<forall>j<k. \<exists>m. net (evs @ retried q delay j) q = RequestFailed m) \<and>
        net (evs @ retried q delay k) q = Body b \<and> loads b = Some data"
  then have f: "\<forall>j<k. \<exists>m. net (evs @ retried q delay j) q = RequestFailed m"
    and k: "int (0 + k) < retries" and b: "net (evs @ retried q delay k) q = Body b"
    and d: "loads b = Some data" by simp_all
  have "k < nat retries" using k by linarith
  then have "0 + k < nat retries" by simp
  from attempt_loop_failures [where net = net and evs = evs and q = q and loads = loads and i = 0,
      OF f k assms]
    attempt_loop_body [where net = net and loads = loads and d = delay, OF b this] d
  show "fetch_with_progress net loads q retries delay evs
          = (Inr data, evs @ retried q delay k @ [Request q])"
    by (simp add: fetch_with_progress_def)
next
  fix m j
  assume e: "fst (fetch_with_progress net loads q retries delay evs) = Inl (RequestException m)"
    and j: "int j < retries"
  then have "0 < nat retries" by simp
  from attempt_loop_run [OF this assms, of net evs q loads] e obtain k where
    k: "\<forall>j<k. \<exists>m. net (evs @ retried q delay j) q = RequestFailed m"
       "int k = retries - 1" "net (evs @ retried q delay k) q = RequestFailed m"
    unfolding fetch_with_progress_def by auto
  have "j < k \<or> j = k" using j k(2) by linarith
  then show "\<exists>m'. net (evs @ retried q delay j) q = RequestFailed m'"
    using k(1,3) by auto
next
  fix m
  assume e: "fst (fetch_with_progress net loads q retries delay evs) = Inl (RequestException m)"
  have "0 < nat retries"
  proof (rule ccontr)
    assume "\<not> 0 < nat retries"
    then have "fetch_with_progress net loads q retries delay evs = (Inr JNull, evs)"
      by (simp add: fetch_with_progress_def)
    with e show False by simp
  qed
  from attempt_loop_run [OF this assms, of net evs q loads] e obtain k where
    k: "int k = retries - 1"
       "snd (fetch_with_progress net loads q retries delay evs)
          = evs @ retried q delay k @ [Request q]"
    unfolding fetch_with_progress_def by auto
  have "k = nat retries - 1" using k(1) by linarith
  with k(2) show "snd (fetch_with_progress net loads q retries delay evs)
          = evs @ retried q delay (nat retries - 1) @ [Request q]" by simp
next
  assume a: "0 < retries \<and>
      (\<forall>j. int j < retries \<longrightarrow> (\<exists>m. net (evs @ retried q delay j) q = RequestFailed m))"
  then show "\<exists>m. fetch_with_progress net loads q retries delay evs
               = (Inl (RequestException m), evs @ retried q delay (nat retries - 1) @ [Request q])"
    by (intro fetch_with_progress_exhausted assms) simp_all
qed

text \<open>
  Claim C4, amended. A body that is received to its end and does not parse as JSON is not
  retried: \<open>json.JSONDecodeError\<close> leaves \<open>fetch_with_progress\<close> at the attempt that
  received the body, with no delay and no further attempt, whatever is left of the budget.
\<close>

theorem malformed_body_not_retried:
  assumes "int k < retries"
    and "\<forall>j<k. \<exists>m. net (evs @ retried q delay j) q = RequestFailed m"
    and "net (evs @ retried q delay k) q = Body b"
    and "loads b = None"
    and "0 \<le> delay"
  shows "fetch_with_progress net loads q retries delay evs
           = (Inl JSONDecodeError, evs @ retried q delay k @ [Request q])"
proof -
  have k: "int (0 + k) < retries" and lt: "0 + k < nat retries" using assms(1) by linarith+
  from attempt_loop_failures [where net = net and evs = evs and q = q and loads = loads and i = 0,
      OF assms(2) k assms(5)]
    attempt_loop_body [where net = net and loads = loads and d = delay, OF assms(3) lt] assms(4)
  show ?thesis by (simp add: fetch_with_progress_def)
qed










text \<open>
  Claim C7, amended. For an area name that is not configured, \<open>fetch_data\<close> looks for the
  cache file first: when there is one it returns its content; when there is none the call
  fails with a \<open>ValueError\<close> whose message lists the names of the configured areas, and
  nothing is requested or written.
\<close>

theorem fetch_data_unknown_area:
  assumes "map_of (areas f) area_name = None"
  shows "fetch_data net loads dumps f today node_type area_name w =
           (case map_of (disk w (cache_dir f)) (cache_file node_type area_name today) of
              Some content \<Rightarrow> (Inr content, w)
            | None \<Rightarrow>
                (Inl (ValueError (''Unknown area: '' @ area_name @ ''. Available areas: ''
                        @ repr_str_list (map fst (areas f)))), w))"
  using assms by (simp add: fetch_data_def get_subareas_def split: option.splits)

lemma count_file_result:
  assumes "countable_file loads f"
  shows "count_file loads c f =
           Inr (c\<lparr>files := AList.update (fst f) (file_objects loads f) (files c),
                  total_objects := total_objects c + file_objects loads f\<rparr>)"
proof (cases "loads (snd f)")
  case None
  then show ?thesis by (simp add: count_file_def file_objects_def)
next
  case (Some data)
  with assms have "has_elements_array data" by (simp add: countable_file_def)
  then show ?thesis using Some
    by (auto simp: count_file_def file_objects_def num_elements_def has_elements_array_def
          split: json.splits option.splits)
qed

lemma count_files_result:
  assumes "list_all (countable_file loads) fl" and "distinct (map fst fl)"
  shows "\<exists>c'. count_files loads c fl = Inr c' \<and>
           total_objects c' = total_objects c + sum_list (map (file_objects loads) fl) \<and>
           (\<forall>f\<in>set fl. map_of (files c') (fst f) = Some (file_objects loads f)) \<and>
           (\<forall>n. n \<notin> fst ` set fl \<longrightarrow> map_of (files c') n = map_of (files c) n)"
  using assms
proof (induction fl arbitrary: c)
  case Nil
  show ?case by simp
next
  case (Cons f fl)
  let ?c1 = "c\<lparr>files := AList.update (fst f) (file_objects loads f) (files c),
                 total_objects := total_objects c + file_objects loads f\<rparr>"
  have 1: "count_file loads c f = Inr ?c1"
    using Cons.prems(1) by (intro count_file_result) simp
  have "list_all (countable_file loads) fl"
    and "distinct (map fst fl)" and nf: "fst f \<notin> fst ` set fl"
    using Cons.prems by simp_all
  from Cons.IH [OF this(1,2), of ?c1] obtain c' where
    c': "count_files loads ?c1 fl = Inr c'"
      "total_objects c' = total_objects ?c1 + sum_list (map (file_objects loads) fl)"
      "\<forall>f\<in>set fl. map_of (files c') (fst f) = Some (file_objects loads f)"
      "\<forall>n. n \<notin> fst ` set fl \<longrightarrow> map_of (files c') n = map_of (files ?c1) n"
    by blast
  have "map_of (files c') (fst f) = Some (file_objects loads f)"
    using c'(4) nf by (simp add: update_conv')
  moreover have "\<forall>n. n \<notin> fst ` set (f # fl) \<longrightarrow> map_of (files c') n = map_of (files c) n"
    using c'(4) by (simp add: update_conv')
  ultimately show ?case
    using 1 c'(1,2,3) by (intro exI [of _ c']) simp
qed

lemma distinct_glob_json: "distinct (map fst (glob_json d))"
  unfolding glob_json_def by (intro distinct_map_filter distinct_clearjunk)

lemma sum_file_objects_parsed:
  "sum_list (map (file_objects loads) fl)
     = sum_list (map num_elements (List.map_filter (\<lambda>f. loads (snd f)) fl))"
  by (induction fl) (auto simp: file_objects_def List.map_filter_simps split: option.splits)

lemma count_dir_result:
  assumes "list_all (countable_file loads) (glob_json d)"
  shows "\<exists>c'. count_files loads \<lparr>total_objects = 0, files = []\<rparr> (glob_json d) = Inr c' \<and>
           total_objects c' = sum_list (map (file_objects loads) (glob_json d)) \<and>
           (\<forall>f\<in>set (glob_json d). map_of (files c') (fst f) = Some (file_objects loads f))"
  using count_files_result [OF assms distinct_glob_json, of "\<lparr>total_objects = 0, files = []\<rparr>"]
  by auto

lemma count_objects_result:
  assumes "list_all (countable_file loads)
             (glob_json (fs (raw_data_dir h)) @ glob_json (fs (filtered_data_dir h)))"
  shows "\<exists>counts.
           count_objects loads h fs = Inr counts \<and>
           total_objects (raw_data counts)
             = sum_list (map (file_objects loads) (glob_json (fs (raw_data_dir h)))) \<and>
           total_objects (filtered_data counts)
             = sum_list (map (file_objects loads) (glob_json (fs (filtered_data_dir h)))) \<and>
           (\<forall>f\<in>set (glob_json (fs (raw_data_dir h))).
              map_of (files (raw_data counts)) (fst f) = Some (file_objects loads f)) \<and>
           (\<forall>f\<in>set (glob_json (fs (filtered_data_dir h))).
              map_of (files (filtered_data counts)) (fst f) = Some (file_objects loads f))"
proof -
  from assms have r: "list_all (countable_file loads) (glob_json (fs (raw_data_dir h)))"
    and f: "list_all (countable_file loads) (glob_json (fs (filtered_data_dir h)))"
    by simp_all
  from count_dir_result [OF r] obtain cr where
    cr: "count_files loads \<lparr>total_objects = 0, files = []\<rparr> (glob_json (fs (raw_data_dir h))) = Inr cr"
      "total_objects cr = sum_list (map (file_objects loads) (glob_json (fs (raw_data_dir h))))"
      "\<forall>f\<in>set (glob_json (fs (raw_data_dir h))). map_of (files cr) (fst f) = Some (file_objects loads f)"
    by blast
  from count_dir_result [OF f] obtain cf where
    cf: "count_files loads \<lparr>total_objects = 0, files = []\<rparr> (glob_json (fs (filtered_data_dir h))) = Inr cf"
      "total_objects cf = sum_list (map (file_objects loads) (glob_json (fs (filtered_data_dir h))))"
      "\<forall>f\<in>set (glob_json (fs (filtered_data_dir h))). map_of (files cf) (fst f) = Some (file_objects loads f)"
    by blast
  have "count_objects loads h fs = Inr \<lparr>raw_data = cr, filtered_data = cf\<rparr>"
    by (simp add: count_objects_def cr(1) cf(1))
  then show ?thesis
    using cr(2,3) cf(2,3) by (intro exI [of _ "\<lparr>raw_data = cr, filtered_data = cf\<rparr>"]) simp
qed


lemma file_objects_no_elements:
  "loads (snd f) = Some (JObject kvs) \<Longrightarrow> map_of kvs ''elements'' = None
     \<Longrightarrow> file_objects loads f = 0"
  by (simp add: file_objects_def num_elements_def)

text \<open>
  Claim C10. A file that holds a dictionary with no \<open>elements\<close> key is counted without
  raising: the loop body records 0 for it and leaves the total as it was; in the result of
  \<open>count_objects\<close> its entry is 0 and the total of its directory is the total of the
  other files.
\<close>

theorem count_objects_without_elements_key:
  assumes "list_all (countable_file loads)
             (glob_json (fs (raw_data_dir h)) @ glob_json (fs (filtered_data_dir h)))"
  shows "(\<forall>c f kvs. loads (snd f) = Some (JObject kvs) \<and> map_of kvs ''elements'' = None \<longrightarrow>
            count_file loads c f = Inr (c\<lparr>files := AList.update (fst f) 0 (files c)\<rparr>)) \<and>
         (\<exists>counts.
            count_objects loads h fs = Inr counts \<and>
            (\<forall>f\<in>set (glob_json (fs (raw_data_dir h))). \<forall>kvs.
               loads (snd f) = Some (JObject kvs) \<and> map_of kvs ''elements'' = None \<longrightarrow>
               map_of (files (raw_data counts)) (fst f) = Some 0 \<and>
               total_objects (raw_data counts)
                 = sum_list (map num_elements (List.map_filter (\<lambda>g. loads (snd g))
                     (remove1 f (glob_json (fs (raw_data_dir h))))))) \<and>
            (\<forall>f\<in>set (glob_json (fs (filtered_data_dir h))). \<forall>kvs.
               loads (snd f) = Some (JObject kvs) \<and> map_of kvs ''elements'' = None \<longrightarrow>
               map_of (files (filtered_data counts)) (fst f) = Some 0 \<and>
               total_objects (filtered_data counts)
                 = sum_list (map num_elements (List.map_filter (\<lambda>g. loads (snd g))
                     (remove1 f (glob_json (fs (filtered_data_dir h))))))))"
proof (rule conjI)
  show "\<forall>c f kvs. loads (snd f) = Some (JObject kvs) \<and> map_of kvs ''elements'' = None \<longrightarrow>
            count_file loads c f = Inr (c\<lparr>files := AList.update (fst f) 0 (files c)\<rparr>)"
    by (simp add: count_file_def)
next
  from count_objects_result [OF assms] obtain counts where
    c: "count_objects loads h fs = Inr counts"
      "total_objects (raw_data counts)
         = sum_list (map (file_objects loads) (glob_json (fs (raw_data_dir h))))"
      "total_objects (filtered_data counts)
         = sum_list (map (file_objects loads) (glob_json (fs (filtered_data_dir h))))"
      "\<forall>f\<in>set (glob_json (fs (raw_data_dir h))).
         map_of (files (raw_data counts)) (fst f) = Some (file_objects loads f)"
      "\<forall>f\<in>set (glob_json (fs (filtered_data_dir h))).
         map_of (files (filtered_data counts)) (fst f) = Some (file_objects loads f)"
    by blast
  have others: "sum_list (map (file_objects loads) fl)
      = sum_list (map num_elements (List.map_filter (\<lambda>g. loads (snd g)) (remove1 f fl)))"
    if "f \<in> set fl" and "file_objects loads f = 0" for f fl
    using that sum_list_map_remove1 [of f fl "file_objects loads"]
    by (simp add: sum_file_objects_parsed)
  show "\<exists>counts.
            count_objects loads h fs = Inr counts \<and>
            (\<forall>f\<in>set (glob_json (fs (raw_data_dir h))). \<forall>kvs.
               loads (snd f) = Some (JObject kvs) \<and> map_of kvs ''elements'' = None \<longrightarrow>
               map_of (files (raw_data counts)) (fst f) = Some 0 \<and>
               total_objects (raw_data counts)
                 = sum_list (map num_elements (List.map_filter (\<lambda>g. loads (snd g))
                     (remove1 f (glob_json (fs (raw_data_dir h))))))) \<and>
            (\<forall>f\<in>set (glob_json (fs (filtered_data_dir h))). \<forall>kvs.
               loads (snd f) = Some (JObject kvs) \<and> map_of kvs ''elements'' = None \<longrightarrow>
               map_of (files (filtered_data counts)) (fst f) = Some 0 \<and>
               total_objects (filtered_data counts)
                 = sum_list (map num_elements (List.map_filter (\<lambda>g. loads (snd g))
                     (remove1 f (glob_json (fs (filtered_data_dir h)))))))"
    using c others file_objects_no_elements [of loads]
    by (intro exI [of _ counts]) (metis (no_types, lifting))
qed

lemma analyze_example_raises:
  assumes "load_data loads h fs filename = Inr data"
  shows "analyze_example body loads h fs filename = Inl (AttributeError ''get_statistics'')"
  using assms
  by (simp add: analyze_example_def call_method_def LocationDataHandler_attributes_def)

section \<open>Examples\<close>

lemma demo_loads_result_set: "demo_loads (demo_text demo_result_set) = Some demo_result_set"
  by (simp add: demo_loads_def)

lemma demo_loads_three: "demo_loads (demo_text three_elements) = Some three_elements"
  by code_simp

lemma demo_loads_one: "demo_loads (demo_text one_element) = Some one_element"
  by code_simp


lemma demo_loads_remark: "demo_loads (demo_text no_elements_key) = Some no_elements_key"
  by code_simp

lemma demo_loads_broken: "demo_loads ''{not json'' = None" "demo_loads [] = None"
  "demo_loads ''<html>'' = None"
  by code_simp+

lemma glob_raw: "glob_json (demo_fs ''data_cache'') =
   [(''hospital.json'', demo_text demo_result_set),
    (''three.json'', demo_text three_elements),
    (''broken.json'', ''{not json''),
    (''remark.json'', demo_text no_elements_key)]"
  by code_simp

lemma glob_filtered: "glob_json (demo_fs ''filtered_data'') =
   [(''three_named_only.json'', demo_text three_elements),
    (''broken.json'', [])]"
  by code_simp

text \<open>C1 on the result set of five elements.\<close>

theorem filter_named_unnamed_partition_witness:
  "is_result_set demo_result_set \<and>
   (\<exists>es ns us dn du.
      py_getitem demo_result_set ''elements'' = Inr (JArray es) \<and>
      named_filtered_data ''hospital.json'' demo_result_set = Inr dn \<and>
      unnamed_filtered_data ''hospital.json'' demo_result_set = Inr du \<and>
      py_getitem dn ''elements'' = Inr (JArray ns) \<and>
      py_getitem du ''elements'' = Inr (JArray us) \<and>
      mset ns + mset us = mset es \<and>
      set ns \<inter> set us = {} \<and>
      subseq ns es \<and> subseq us es)"
proof -
  have h: "is_result_set demo_result_set"
    by (simp add: is_result_set_def demo_result_set_def demo_elements_def is_element_def)
  from h filter_named_unnamed_partition [OF h, of "''hospital.json''"]
  show ?thesis by (rule conjI)
qed

lemma demo_elements_are_elements: "list_all is_element demo_elements"
  by (simp add: demo_elements_def is_element_def)

text \<open>C6 on five elements of which three have a name: the counts are 5 and 3, and 5 and 2.\<close>

theorem filter_locations_output_witness:
  "filter_named_locations demo_loads demo_dumps demo_handler demo_fs ''hospital.json'' =
     (Inr ''hospital_named_only.json'',
      write_file demo_fs ''filtered_data'' ''hospital_named_only.json''
        (demo_dumps (Some 2) (JObject
          [(''version'', JFloat ''0.6''),
           (''generator'', JString ''Filtered Data''),
           (''original_file'', JString ''hospital.json''),
           (''filter_type'', JString ''named_only''),
           (''original_count'', JInt 5),
           (''filtered_count'', JInt 3),
           (''elements'', JArray [demo_elements ! 0, demo_elements ! 2, demo_elements ! 4])]))) \<and>
   filter_unnamed_locations demo_loads demo_dumps demo_handler demo_fs ''hospital.json'' =
     (Inr ''hospital_unnamed_only.json'',
      write_file demo_fs ''filtered_data'' ''hospital_unnamed_only.json''
        (demo_dumps (Some 2) (JObject
          [(''version'', JFloat ''0.6''),
           (''generator'', JString ''Filtered Data''),
           (''original_file'', JString ''hospital.json''),
           (''filter_type'', JString ''unnamed_only''),
           (''original_count'', JInt 5),
           (''filtered_count'', JInt 2),
           (''elements'', JArray [demo_elements ! 1, demo_elements ! 3])])))"
proof -
  have 1: "map_of (demo_fs (raw_data_dir demo_handler)) ''hospital.json''
             = Some (demo_text demo_result_set)"
    by (simp add: demo_fs_def demo_handler_def)
  have 2: "demo_loads (demo_text demo_result_set)
             = Some (JObject [(''version'', JFloat ''0.6''), (''generator'', JString ''Overpass API''),
                              (''elements'', JArray demo_elements)])"
    unfolding demo_loads_result_set by (simp add: demo_result_set_def)
  have 3: "map_of [(''version'', JFloat ''0.6''), (''generator'', JString ''Overpass API''),
                   (''elements'', JArray demo_elements)] ''elements'' = Some (JArray demo_elements)"
    by simp
  from filter_locations_output [where fs = demo_fs and h = demo_handler and loads = demo_loads
      and dumps = demo_dumps, OF 1 2 3 demo_elements_are_elements]
  show ?thesis
    by (simp add: rsplit_dot_head_def demo_handler_def demo_elements_def has_name_tag_def)
qed

lemma demo_docs_countable:
  "has_elements_array demo_result_set" "has_elements_array three_elements"
  "has_elements_array no_elements_key"
  by (simp_all add: has_elements_array_def demo_result_set_def three_elements_def
        no_elements_key_def)

lemma demo_docs_num_elements:
  "num_elements demo_result_set = 5" "num_elements three_elements = 3"
  "num_elements no_elements_key = 0"
  by (simp_all add: num_elements_def demo_result_set_def three_elements_def
        no_elements_key_def demo_elements_def)


text \<open>C10 on the file \<open>remark.json\<close> of the raw directory.\<close>

theorem count_objects_without_elements_key_witness:
  "list_all (countable_file demo_loads)
     (glob_json (demo_fs (raw_data_dir demo_handler))
        @ glob_json (demo_fs (filtered_data_dir demo_handler))) \<and>
   demo_loads (demo_text no_elements_key) = Some (JObject [(''remark'', JString ''runtime error'')]) \<and>
   count_file demo_loads \<lparr>total_objects = 5, files = [(''hospital.json'', 5)]\<rparr>
       (''remark.json'', demo_text no_elements_key)
     = Inr \<lparr>total_objects = 5, files = [(''hospital.json'', 5), (''remark.json'', 0)]\<rparr> \<and>
   (\<exists>counts.
      count_objects demo_loads demo_handler demo_fs = Inr counts \<and>
      map_of (files (raw_data counts)) ''remark.json'' = Some 0 \<and>
      total_objects (raw_data counts) = 8)"
proof -
  have d: "raw_data_dir demo_handler = ''data_cache''"
    "filtered_data_dir demo_handler = ''filtered_data''"
    by (simp_all add: demo_handler_def)
  have h: "list_all (countable_file demo_loads)
     (glob_json (demo_fs (raw_data_dir demo_handler))
        @ glob_json (demo_fs (filtered_data_dir demo_handler)))"
    unfolding d glob_raw glob_filtered
    by (simp add: countable_file_def demo_loads_result_set demo_loads_three demo_loads_remark
          demo_loads_broken demo_docs_countable)
  have r: "demo_loads (demo_text no_elements_key)
             = Some (JObject [(''remark'', JString ''runtime error'')])"
    unfolding demo_loads_remark by (simp add: no_elements_key_def)
  note t = count_objects_without_elements_key [OF h]
  from t [THEN conjunct1, rule_format,
      of "(''remark.json'', demo_text no_elements_key)" "[(''remark'', JString ''runtime error'')]"
         "\<lparr>total_objects = 5, files = [(''hospital.json'', 5)]\<rparr>"] r
  have c: "count_file demo_loads \<lparr>total_objects = 5, files = [(''hospital.json'', 5)]\<rparr>
       (''remark.json'', demo_text no_elements_key)
     = Inr \<lparr>total_objects = 5, files = [(''hospital.json'', 5), (''remark.json'', 0)]\<rparr>"
    by simp
  from t [THEN conjunct2] obtain counts where
    k: "count_objects demo_loads demo_handler demo_fs = Inr counts"
       "\<forall>f\<in>set (glob_json (demo_fs (raw_data_dir demo_handler))). \<forall>kvs.
               demo_loads (snd f) = Some (JObject kvs) \<and> map_of kvs ''elements'' = None \<longrightarrow>
               map_of (files (raw_data counts)) (fst f) = Some 0 \<and>
               total_objects (raw_data counts)
                 = sum_list (map num_elements (List.map_filter (\<lambda>g. demo_loads (snd g))
                     (remove1 f (glob_json (demo_fs (raw_data_dir demo_handler))))))"
    by blast
  have m: "(''remark.json'', demo_text no_elements_key)
             \<in> set (glob_json (demo_fs (raw_data_dir demo_handler)))"
    unfolding d glob_raw by simp
  have ne: "(''hospital.json'', demo_text demo_result_set)
              \<noteq> (''remark.json'', demo_text no_elements_key)"
     "(''three.json'', demo_text three_elements) \<noteq> (''remark.json'', demo_text no_elements_key)"
     "(''broken.json'', ''{not json'') \<noteq> (''remark.json'', demo_text no_elements_key)"
    by simp_all
  from k(2) [rule_format, OF m, of "[(''remark'', JString ''runtime error'')]"] r
  have "map_of (files (raw_data counts)) ''remark.json'' = Some 0 \<and>
        total_objects (raw_data counts) = 8"
    unfolding d glob_raw
    by (simp add: ne demo_loads_result_set demo_loads_three
          demo_loads_broken demo_docs_num_elements)
  with h r c k(1) show ?thesis by blast
qed

lemma three_attempts: "map int [0..<3] = [0, 1, 2]"
  by code_simp

lemma demo_docs_items:
  "and_then (dict_get one_element ''elements'' (JArray [])) py_iter = Inr [JInt 7]"
  "and_then (dict_get two_elements ''elements'' (JArray [])) py_iter = Inr [JInt 8, JInt 9]"
  "and_then (dict_get no_elements_key ''elements'' (JArray [])) py_iter = Inr []"
  by (simp_all add: one_element_def two_elements_def no_elements_key_def)

text \<open>
  C3: two failures and then a body that parses; and three failures.
\<close>

theorem fetch_with_progress_retries_witness:
  "(0::int) \<le> 5 \<and>
   fetch_with_progress
       (scripted [RequestFailed ''timeout'', RequestFailed ''503''] (Body (demo_text one_element)))
       demo_loads ''q'' 3 5 []
     = (Inr one_element, [Request ''q'', Sleep 5, Request ''q'', Sleep 5, Request ''q'']) \<and>
   (\<exists>m. fetch_with_progress (scripted [] (RequestFailed ''timeout'')) demo_loads ''q'' 3 5 []
          = (Inl (RequestException m),
             [Request ''q'', Sleep 5, Request ''q'', Sleep 5, Request ''q'']))"
proof -
  let ?net = "scripted [RequestFailed ''timeout'', RequestFailed ''503'']
                (Body (demo_text one_element))"
  let ?down = "scripted [] (RequestFailed ''timeout'')"
  have d: "(0::int) \<le> 5" by simp
  have r2: "retried ''q'' 5 2 = [Request ''q'', Sleep 5, Request ''q'', Sleep 5]"
    by (simp add: retried_def numeral_2_eq_2)
  have a: "int 2 < 3 \<and>
        (\<forall>j<2. \<exists>m. ?net ([] @ retried ''q'' 5 j) ''q'' = RequestFailed m) \<and>
        ?net ([] @ retried ''q'' 5 2) ''q'' = Body (demo_text one_element) \<and>
        demo_loads (demo_text one_element) = Some one_element"
    by (simp add: less_2_cases_iff r2 demo_loads_one) (simp add: retried_def scripted_def requests_sent_def)
  have b: "0 < (3::int) \<and>
      (\<forall>j. int j < 3 \<longrightarrow> (\<exists>m. ?down ([] @ retried ''q'' 5 j) ''q'' = RequestFailed m))"
    by (simp add: scripted_def)
  note t = fetch_with_progress_retries [where delay = 5 and retries = 3 and loads = demo_loads
      and q = "''q''" and evs = "[]", OF d]
  from t [where net = ?net, THEN conjunct2, THEN conjunct2, THEN conjunct1, rule_format, OF a]
  have 1: "fetch_with_progress ?net demo_loads ''q'' 3 5 []
     = (Inr one_element, [Request ''q'', Sleep 5, Request ''q'', Sleep 5, Request ''q''])"
    by (simp add: r2)
  from t [where net = ?down, THEN conjunct2, THEN conjunct2, THEN conjunct2, THEN conjunct2,
      rule_format, OF b]
  have 2: "\<exists>m. fetch_with_progress ?down demo_loads ''q'' 3 5 []
          = (Inl (RequestException m),
             [Request ''q'', Sleep 5, Request ''q'', Sleep 5, Request ''q''])"
    by (simp add: r2)
  from d 1 2 show ?thesis by blast
qed

text \<open>
  C4 as stated fails: a body that does not parse ends the fetch at the first attempt, with
  no delay, where a transport failure is retried twice.
\<close>

theorem malformed_body_counterexample:
  "fetch_with_progress (scripted [] (Body ''<html>'')) demo_loads ''q'' 3 5 []
     = (Inl JSONDecodeError, [Request ''q'']) \<and>
   fetch_with_progress (scripted [] (RequestFailed ''timeout'')) demo_loads ''q'' 3 5 []
     = (Inl (RequestException ''timeout''),
        [Request ''q'', Sleep 5, Request ''q'', Sleep 5, Request ''q''])"
  by (simp add: fetch_with_progress_def three_attempts scripted_def demo_loads_broken)

text \<open>C4 as amended: a transport failure, then a body that does not parse.\<close>

theorem malformed_body_not_retried_witness:
  "fetch_with_progress (scripted [RequestFailed ''timeout''] (Body ''<html>'')) demo_loads
       ''q'' 3 5 []
     = (Inl JSONDecodeError, [Request ''q'', Sleep 5, Request ''q''])"
proof -
  let ?net = "scripted [RequestFailed ''timeout''] (Body ''<html>'')"
  have r1: "retried ''q'' 5 1 = [Request ''q'', Sleep 5]"
    by (simp add: retried_def)
  have 1: "int 1 < 3" by simp
  have 2: "\<forall>j<1. \<exists>m. ?net ([] @ retried ''q'' 5 j) ''q'' = RequestFailed m"
    by (simp add: scripted_def requests_sent_def)
  have 3: "?net ([] @ retried ''q'' 5 1) ''q'' = Body ''<html>''"
    by (simp add: retried_def scripted_def requests_sent_def)
  have 4: "demo_loads ''<html>'' = None" by (rule demo_loads_broken)
  have 5: "(0::int) \<le> 5" by simp
  from malformed_body_not_retried [where net = ?net and loads = demo_loads and evs = "[]"
      and q = "''q''", OF 1 2 3 4 5]
  show ?thesis by (simp add: retried_def)
qed





text \<open>
  C7 as stated fails: \<open>x_northern_europe\<close> is not a configured area, and the call
  returns the cache file that an earlier call for the feature type \<open>hospital_x\<close> in
  \<open>northern_europe\<close> wrote on the same day, the two calls having the same cache file.
\<close>

theorem unknown_area_cached_counterexample:
  "map_of (areas (new_OverpassFetcher ''data_cache'')) ''x_northern_europe'' = None \<and>
   fst (fetch_data (scripted [] (Body (demo_text one_element))) demo_loads demo_dumps
          (new_OverpassFetcher ''data_cache'') ''20250224'' ''hospital'' ''x_northern_europe''
          (snd (fetch_data (scripted [] (Body (demo_text one_element))) demo_loads demo_dumps
                  (new_OverpassFetcher ''data_cache'') ''20250224'' ''hospital_x''
                  ''northern_europe'' demo_world)))
     = Inr (demo_dumps None (JObject
              [(''version'', JFloat ''0.6''),
               (''generator'', JString ''Overpass API''),
               (''elements'', JArray [JInt 7, JInt 7, JInt 7, JInt 7])]))"
  by (simp add: fetch_data_def get_subareas_def new_OverpassFetcher_def cache_file_def
        demo_world_def demo_fs_def write_file_def fetch_with_progress_def three_attempts
        scripted_def demo_loads_one demo_docs_items update_conv' Let_def)

text \<open>C7 as amended, with no cache file: the message of the error.\<close>

theorem fetch_data_unknown_area_witness:
  "map_of (areas (new_OverpassFetcher ''data_cache'')) ''atlantis'' = None \<and>
   fetch_data (scripted [] (Body (demo_text one_element))) demo_loads demo_dumps
       (new_OverpassFetcher ''data_cache'') ''20250224'' ''hospital'' ''atlantis'' demo_world
     = (Inl (ValueError
          ''Unknown area: atlantis. Available areas: ['northern_europe', 'central_europe', 'southern_europe']''),
        demo_world)"
proof -
  have u: "map_of (areas (new_OverpassFetcher ''data_cache'')) ''atlantis'' = None"
    by (simp add: new_OverpassFetcher_def)
  from fetch_data_unknown_area [where net = "scripted [] (Body (demo_text one_element))"
      and loads = demo_loads and dumps = demo_dumps and today = "''20250224''"
      and node_type = "''hospital''" and w = demo_world, OF u] u
  show ?thesis
    by (simp add: new_OverpassFetcher_def cache_file_def demo_world_def demo_fs_def
          repr_str_list_def)
qed

text \<open>
  Claim C8. \<open>analyze_example\<close> is the only caller of the statistics operation, and
  \<open>LocationDataHandler\<close> defines no \<open>get_statistics\<close>: on a file that loads, the call
  raises \<open>AttributeError\<close> and no statistics are returned.
\<close>

theorem analyze_example_attribute_error:
  "\<forall>body. analyze_example body demo_loads demo_handler demo_fs ''hospital.json''
           = Inl (AttributeError ''get_statistics'')"
proof -
  have "load_data demo_loads demo_handler demo_fs ''hospital.json'' = Inr demo_result_set"
    by (simp add: load_data_def demo_handler_def demo_fs_def demo_loads_result_set)
  then show ?thesis by (simp add: analyze_example_raises)
qed

end
